theory Spec2Isabelle
  imports Complex_Main
begin

section \<open>The Simulator: data model\<close>

text \<open>
  The class \<open>Simulator\<close> (the top level managing object) is embedded as a record of its
  fields and one function per member function. The classes \<open>Time\<close>, \<open>World\<close>,
  \<open>PhysicsEngine\<close>, \<open>OgreAdaptor\<close>, \<open>Gui\<close>, \<open>Entity\<close>, \<open>Model\<close> and \<open>Body\<close> are declared
  in headers that are not part of the sources, so:
  \<^item> a \<open>Time\<close> and a \<open>double\<close> are both an exact number of seconds (a \<open>real\<close>), and
    the sum, the difference and the order of \<open>Time\<close> values are those of the reals; the
    conversion \<open>Time(double)\<close> that makes \<open>physicsUpdatePeriod\<close>, which rounds to whole
    nanoseconds in a way that \<open>Time.hh\<close> decides, is a parameter of the physics loop;
  \<^item> a reading of the wall clock is an argument of the function that reads it;
  \<^item> a call into a collaborator, the taking and release of a mutex and a \<open>nanosleep\<close>
    are events appended to the field \<open>trace\<close>; a collaborator does not call back into
    the Simulator;
  \<^item> a pointer is an \<open>option\<close> (or a \<open>bool\<close> where only being NULL is looked at).
\<close>

type_synonym time = real

type_synonym entity = nat

datatype State = LOAD | INIT | RUN

datatype mutex = render_mutex | model_delete_mutex

datatype event =
    Lock mutex
  | Unlock mutex
  | PauseSignal bool
  | WorldClose | OgreClose | WorldFini
  | XmlLoad | MessageLoad | ConfigLoad | OgreLoad | GuiCreate | GuiLoad | GuiCreateCameras
  | OgreInit | GuiInit | WorldLoad | WorldInit
  | SpawnPhysicsThread | JoinPhysicsThread
  | GuiUpdate | UpdateCameras | GraphicsUpdate
  | ProcessEntitiesToLoad | ProcessEntitiesToDelete
  | InitForThread | WorldUpdate | UpdateSimulationIface
  | Nanosleep time
  | ShowSelectionBox entity bool
  | SetSelected entity bool

text \<open>The \<open>gzthrow\<close> sites of \<open>Load\<close> and \<open>Init\<close>, and the dereference of a NULL
  pointer.\<close>

datatype gazebo_error =
    XmlConfigError | GazeboConfigError | GuiLoadError | RenderInitError
  | WorldLoadError | WorldInitError

datatype fault = NullDereference

record simulator =
  xmlFile :: bool
  gui :: bool
  renderEngine :: bool
  gazeboConfig :: bool
  loaded :: bool
  pause :: bool
  simTime :: time
  pauseTime :: time
  startTime :: time
  physicsUpdates :: nat
  checkpoint :: time
  renderUpdates :: nat
  stepInc :: bool
  userQuit :: bool
  guiEnabled :: bool
  renderEngineEnabled :: bool
  physicsEnabled :: bool
  timeout :: real
  selectedEntity :: "entity option"
  selectedBody :: "entity option"
  state :: "State option"
  trace :: "event list"

definition emit :: "event list \<Rightarrow> simulator \<Rightarrow> simulator" where
  "emit es s = s\<lparr>trace := trace s @ es\<rparr>"

subsection \<open>Clock\<close>

definition GetWallTime :: "time \<Rightarrow> time" where
  "GetWallTime now = now"

text \<open>The constructor: the initialiser list, then \<open>startTime\<close> from the wall clock. The
  member \<open>state\<close> is not initialised (\<open>None\<close>).\<close>

definition Simulator :: "time \<Rightarrow> simulator" where
  "Simulator now =
     \<lparr>xmlFile = False, gui = False, renderEngine = False, gazeboConfig = False,
      loaded = False, pause = False, simTime = 0, pauseTime = 0,
      startTime = GetWallTime now,
      physicsUpdates = 0, checkpoint = 0, renderUpdates = 0,
      stepInc = False, userQuit = False,
      guiEnabled = True, renderEngineEnabled = True, physicsEnabled = True,
      timeout = - 1, selectedEntity = None, selectedBody = None,
      state = None, trace = []\<rparr>"

definition GetSimTime :: "simulator \<Rightarrow> time" where
  "GetSimTime s = simTime s"

definition SetSimTime :: "time \<Rightarrow> simulator \<Rightarrow> simulator" where
  "SetSimTime t s = s\<lparr>simTime := t\<rparr>"

definition GetPauseTime :: "simulator \<Rightarrow> time" where
  "GetPauseTime s = pauseTime s"

definition GetStartTime :: "simulator \<Rightarrow> time" where
  "GetStartTime s = startTime s"

definition GetRealTime :: "simulator \<Rightarrow> time \<Rightarrow> time" where
  "GetRealTime s now = GetWallTime now - startTime s"

subsection \<open>Control surface\<close>

definition IsPaused :: "simulator \<Rightarrow> bool" where
  "IsPaused s = pause s"

text \<open>The scoped lock is released on both ways out of \<open>SetPaused\<close>.\<close>

definition SetPaused :: "bool \<Rightarrow> simulator \<Rightarrow> simulator" where
  "SetPaused p s =
     (let s1 = emit [Lock render_mutex] s in
      if pause s1 = p then emit [Unlock render_mutex] s1
      else emit [Unlock render_mutex] ((emit [PauseSignal p] s1)\<lparr>pause := p\<rparr>))"

definition SetUserQuit :: "simulator \<Rightarrow> simulator" where
  "SetUserQuit s = s\<lparr>userQuit := True\<rparr>"

definition GetStepInc :: "simulator \<Rightarrow> bool" where
  "GetStepInc s = stepInc s"

definition SetStepInc :: "bool \<Rightarrow> simulator \<Rightarrow> simulator" where
  "SetStepInc step s =
     emit [Unlock render_mutex] ((emit [Lock render_mutex] s)\<lparr>stepInc := step\<rparr>)"

definition SetGuiEnabled :: "bool \<Rightarrow> simulator \<Rightarrow> simulator" where
  "SetGuiEnabled enabled s = s\<lparr>guiEnabled := enabled\<rparr>"

definition GetGuiEnabled :: "simulator \<Rightarrow> bool" where
  "GetGuiEnabled s = guiEnabled s"

definition SetRenderEngineEnabled :: "bool \<Rightarrow> simulator \<Rightarrow> simulator" where
  "SetRenderEngineEnabled enabled s = s\<lparr>renderEngineEnabled := enabled\<rparr>"

definition GetRenderEngineEnabled :: "simulator \<Rightarrow> bool" where
  "GetRenderEngineEnabled s = renderEngineEnabled s"

definition SetTimeout :: "real \<Rightarrow> simulator \<Rightarrow> simulator" where
  "SetTimeout t s = s\<lparr>timeout := t\<rparr>"

definition SetPhysicsEnabled :: "bool \<Rightarrow> simulator \<Rightarrow> simulator" where
  "SetPhysicsEnabled enabled s = s\<lparr>physicsEnabled := enabled\<rparr>"

definition GetPhysicsEnabled :: "simulator \<Rightarrow> bool" where
  "GetPhysicsEnabled s = physicsEnabled s"

definition GetState :: "simulator \<Rightarrow> State option" where
  "GetState s = state s"

subsection \<open>Selection\<close>

text \<open>The first \<open>if\<close> of \<open>SetSelectedEntity\<close>: unselect the selected entity, if any.\<close>

definition unselect :: "simulator \<Rightarrow> simulator" where
  "unselect s =
     (case selectedEntity s of
        Some old \<Rightarrow>
          (emit [ShowSelectionBox old False, SetSelected old False] s)\<lparr>selectedEntity := None\<rparr>
      | None \<Rightarrow> s)"

text \<open>The second \<open>if\<close>. Its first branch calls through \<open>ent\<close> after storing it, which
  is a fault when \<open>ent\<close> is NULL.\<close>

definition SetSelectedEntity :: "entity option \<Rightarrow> simulator \<Rightarrow> fault + simulator" where
  "SetSelectedEntity ent s =
     (let s1 = unselect s in
      if selectedEntity s1 \<noteq> ent then
        (case ent of
           Some e \<Rightarrow>
             Inr (emit [ShowSelectionBox e True, SetSelected e True] (s1\<lparr>selectedEntity := ent\<rparr>))
         | None \<Rightarrow> Inl NullDereference)
      else Inr (s1\<lparr>selectedEntity := None\<rparr>))"

definition GetSelectedEntity :: "simulator \<Rightarrow> entity option" where
  "GetSelectedEntity s = selectedEntity s"

subsection \<open>Parent model and parent body\<close>

text \<open>
  \<open>Entity::GetParent\<close> and the test behind \<open>dynamic_cast\<close> are arguments. The loop
  \<open>do { model = dynamic_cast<Model*>(entity); entity = entity->GetParent(); } while (model == NULL)\<close>
  may run forever on a cyclic parent chain, so it is a partial function: \<open>None\<close> is not
  returning. The cast of a NULL pointer is NULL, and \<open>entity->GetParent()\<close> on a NULL
  \<open>entity\<close> is the fault.
\<close>

partial_function (option) parent_loop ::
  "(entity \<Rightarrow> entity option) \<Rightarrow> (entity \<Rightarrow> bool) \<Rightarrow> entity option \<Rightarrow> (fault + entity option) option"
where
  "parent_loop GetParent is_a entity =
     (case entity of
        None \<Rightarrow> Some (Inl NullDereference)
      | Some e \<Rightarrow>
          (let found = (if is_a e then Some e else None);
               entity' = GetParent e
           in if found = None then parent_loop GetParent is_a entity'
              else Some (Inr found)))"

definition GetParentModel ::
  "(entity \<Rightarrow> entity option) \<Rightarrow> (entity \<Rightarrow> bool) \<Rightarrow> entity option \<Rightarrow> (fault + entity option) option"
where
  "GetParentModel GetParent isModel entity =
     (if entity = None then Some (Inr None) else parent_loop GetParent isModel entity)"

definition GetParentBody ::
  "(entity \<Rightarrow> entity option) \<Rightarrow> (entity \<Rightarrow> bool) \<Rightarrow> entity option \<Rightarrow> (fault + entity option) option"
where
  "GetParentBody GetParent isBody entity =
     (if entity = None then Some (Inr None) else parent_loop GetParent isBody entity)"

text \<open>The \<open>n\<close>-th entity of the parent chain of a pointer (the pointer itself for \<open>n = 0\<close>).\<close>

fun ancestor :: "(entity \<Rightarrow> entity option) \<Rightarrow> nat \<Rightarrow> entity option \<Rightarrow> entity option" where
  "ancestor GetParent 0 p = p"
| "ancestor GetParent (Suc n) p =
     (case p of None \<Rightarrow> None | Some e \<Rightarrow> ancestor GetParent n (GetParent e))"

subsection \<open>Calls from outside a loop\<close>

text \<open>
  The setters, as calls that the other thread or a callback makes while a loop runs. The
  fault of \<open>SetSelectedEntity\<close> leaves the state as it was.
\<close>

datatype call =
    Call_SetPaused bool
  | Call_SetSimTime time
  | Call_SetUserQuit
  | Call_SetStepInc bool
  | Call_SetGuiEnabled bool
  | Call_SetRenderEngineEnabled bool
  | Call_SetTimeout real
  | Call_SetPhysicsEnabled bool
  | Call_SetSelectedEntity "entity option"

fun exec_call :: "call \<Rightarrow> simulator \<Rightarrow> simulator" where
  "exec_call (Call_SetPaused p) s = SetPaused p s"
| "exec_call (Call_SetSimTime t) s = SetSimTime t s"
| "exec_call Call_SetUserQuit s = SetUserQuit s"
| "exec_call (Call_SetStepInc b) s = SetStepInc b s"
| "exec_call (Call_SetGuiEnabled b) s = SetGuiEnabled b s"
| "exec_call (Call_SetRenderEngineEnabled b) s = SetRenderEngineEnabled b s"
| "exec_call (Call_SetTimeout t) s = SetTimeout t s"
| "exec_call (Call_SetPhysicsEnabled b) s = SetPhysicsEnabled b s"
| "exec_call (Call_SetSelectedEntity ent) s =
     (case SetSelectedEntity ent s of Inr s' \<Rightarrow> s' | Inl f \<Rightarrow> s)"

definition exec_calls :: "call list \<Rightarrow> simulator \<Rightarrow> simulator" where
  "exec_calls cs s = fold exec_call cs s"

section \<open>The physics loop\<close>

text \<open>
  What \<open>PhysicsLoop\<close> reads from the physics engine before the loop: the step time and
  the update rate.
\<close>

record physics_engine =
  GetStepTime :: time
  GetUpdateRate :: real

text \<open>
  What the loop is run with: the physics engine, and the constructor \<open>Time(double)\<close> of
  \<open>Time.hh\<close>, which is not among the sources. Line 630,
  \<open>Time physicsUpdatePeriod = 1.0 / physicsUpdateRate\<close>, turns the quotient into a \<open>Time\<close>
  through it: \<open>Time_of_double\<close> stands for the rounding of the division and of the
  conversion to whole nanoseconds. The code uses the period only under
  \<open>physicsUpdateRate > 0\<close>.
\<close>

record loop_setup = physics_engine +
  Time_of_double :: "real \<Rightarrow> time"

definition physicsUpdatePeriod :: "loop_setup \<Rightarrow> time" where
  "physicsUpdatePeriod pe = Time_of_double pe (1 / GetUpdateRate pe)"

text \<open>
  The wall clock readings of one iteration of the loop, each named after the source line
  of its \<open>GetRealTime\<close> call. The readings of lines 679, 682 and 706 are taken only when
  the conditions before them hold.
\<close>

record clock =
  at644 :: time
  at661 :: time
  at669 :: time
  at679 :: time
  at682 :: time
  at706 :: time

text \<open>The default request: \<open>tv_sec = 0\<close>, \<open>tv_nsec = 10000\<close>.\<close>

definition default_sleep :: time where
  "default_sleep = 10000 / 1000000000"

text \<open>
  The request handed to \<open>nanosleep\<close> (lines 671 to 695). In both branches \<open>diffTime\<close> is
  a \<open>Time\<close>, a difference of \<open>Time\<close> values, and the request is made of its fields \<open>sec\<close>
  and \<open>nsec\<close>: the request is that \<open>Time\<close>.
\<close>

definition sleep_request :: "loop_setup \<Rightarrow> clock \<Rightarrow> time \<Rightarrow> time \<Rightarrow> simulator \<Rightarrow> time" where
  "sleep_request pe c currTime lastTime s =
     (if GetUpdateRate pe < 0 \<and> GetSimTime s + GetPauseTime s > GetRealTime s (at679 c)
      then (GetSimTime s + GetPauseTime s) - GetRealTime s (at682 c)
      else if GetUpdateRate pe > 0 \<and> currTime - lastTime < physicsUpdatePeriod pe
      then physicsUpdatePeriod pe - (currTime - lastTime)
      else default_sleep)"

text \<open>
  One pass through the body of \<open>while (!this->userQuit)\<close>. The result is whether the body
  left the loop through \<open>break\<close>, and the state.
\<close>

definition PhysicsLoop_body :: "loop_setup \<Rightarrow> clock \<Rightarrow> simulator \<Rightarrow> bool \<times> simulator" where
  "PhysicsLoop_body pe c s =
     (let step = GetStepTime pe;
          currTime0 = GetRealTime s (at644 c);
          advance = (\<not> IsPaused s \<or> GetStepInc s);
          userStepped = (advance \<and> GetStepInc s);
          s1 = (if advance then s\<lparr>simTime := simTime s + step\<rparr>
                else s\<lparr>pauseTime := pauseTime s + step\<rparr>);
          lastTime = GetRealTime s1 (at661 c);
          s2 = emit [Lock render_mutex, Lock model_delete_mutex, WorldUpdate,
                     Unlock model_delete_mutex, Unlock render_mutex] s1;
          currTime = GetRealTime s2 (at669 c);
          req = sleep_request pe c currTime lastTime s2;
          s3 = emit [Nanosleep req] s2;
          s4 = emit [UpdateSimulationIface] s3
      in if timeout s4 > 0 \<and> GetRealTime s4 (at706 c) > timeout s4
         then (True, s4\<lparr>userQuit := True\<rparr>)
         else (False, if userStepped then SetPaused True (SetStepInc False s4) else s4))"

text \<open>
  The loop, run on a finite list of inputs, one for each test of \<open>!this->userQuit\<close>: the
  calls that the other thread has made since the test before, and the clock readings of
  the iteration that follows the test. The first component of the result tells whether
  the loop was left (\<open>userQuit\<close> seen at a test, or \<open>break\<close>); it is \<open>False\<close> when the
  inputs end while the loop is still running.
\<close>

fun PhysicsLoop_while ::
  "loop_setup \<Rightarrow> (call list \<times> clock) list \<Rightarrow> simulator \<Rightarrow> bool \<times> simulator"
where
  "PhysicsLoop_while pe [] s = (userQuit s, s)"
| "PhysicsLoop_while pe ((calls, c) # ins) s =
     (let s0 = exec_calls calls s in
      if userQuit s0 then (True, s0)
      else (case PhysicsLoop_body pe c s0 of
              (True, s') \<Rightarrow> (True, s')
            | (False, s') \<Rightarrow> PhysicsLoop_while pe ins s'))"

definition PhysicsLoop ::
  "loop_setup \<Rightarrow> (call list \<times> clock) list \<Rightarrow> simulator \<Rightarrow> bool \<times> simulator"
where
  "PhysicsLoop pe ins s = PhysicsLoop_while pe ins (emit [InitForThread] s)"

section \<open>The main loop\<close>

text \<open>The wall clock readings of one iteration of \<open>MainLoop\<close>, named after their source
  lines. Those of lines 358 and 369 are taken only in the first branch.\<close>

record frame_clock =
  at355 :: time
  at358 :: time
  at369 :: time

definition freq :: real where
  "freq = 80"

text \<open>One pass through the body of the loop. The local \<open>lastTime\<close> goes in and comes out.\<close>

definition MainLoop_body :: "time \<Rightarrow> frame_clock \<Rightarrow> simulator \<Rightarrow> time \<times> simulator" where
  "MainLoop_body lastTime c s =
     (let currTime = GetWallTime (at355 c) in
      if currTime - lastTime > 1 / freq then
        (let lastTime' = GetWallTime (at358 c);
             s1 = (if gui s then emit [GuiUpdate] s else s);
             s2 = (if renderEngineEnabled s1 then emit [UpdateCameras] s1 else s1);
             s3 = (if renderEngineEnabled s2 then emit [GraphicsUpdate] s2 else s2);
             currTime' = GetWallTime (at369 c);
             s4 = emit [ProcessEntitiesToLoad, ProcessEntitiesToDelete] s3
         in if currTime' - lastTime' < 1 / freq
            then (lastTime', emit [Nanosleep (1 / freq - (currTime' - lastTime'))] s4)
            else (lastTime', s4))
      else (lastTime, emit [Nanosleep (1 / freq - (currTime - lastTime))] s))"

text \<open>The loop on a finite list of inputs, as for the physics loop: the calls made from
  outside since the test before, then the readings of the iteration.\<close>

fun MainLoop_while ::
  "(call list \<times> frame_clock) list \<Rightarrow> time \<Rightarrow> simulator \<Rightarrow> bool \<times> simulator"
where
  "MainLoop_while [] lastTime s = (userQuit s, s)"
| "MainLoop_while ((calls, c) # ins) lastTime s =
     (let s0 = exec_calls calls s in
      if userQuit s0 then (True, s0)
      else (case MainLoop_body lastTime c s0 of
              (lastTime', s') \<Rightarrow> MainLoop_while ins lastTime' s'))"

text \<open>\<open>MainLoop\<close>: the physics thread is started before the loop and joined after it.\<close>

definition MainLoop :: "(call list \<times> frame_clock) list \<Rightarrow> simulator \<Rightarrow> bool \<times> simulator" where
  "MainLoop ins s =
     (let s1 = s\<lparr>state := Some RUN\<rparr>;
          s2 = emit [SpawnPhysicsThread] s1
      in case MainLoop_while ins 0 s2 of
           (True, s') \<Rightarrow> (True, emit [JoinPhysicsThread] s')
         | (False, s') \<Rightarrow> (False, s'))"

section \<open>Load, Init, Close, Fini\<close>

definition Close :: "simulator \<Rightarrow> simulator" where
  "Close s =
     (if \<not> loaded s then s
      else (let s1 = emit [WorldClose] s in
            if renderEngineEnabled s1 then emit [OgreClose] s1 else s1))"

text \<open>
  What \<open>Load\<close> meets outside: whether each call inside a \<open>try\<close> block returns, and whether
  the world file has a \<open>gui\<close> node. A failure inside the block of the GUI is taken to
  come from \<open>Gui::Load\<close>. The result holds the error thrown, if any, and the state that the
  object is left in.
\<close>

record load_env =
  xml_ok :: bool
  config_ok :: bool
  gui_node :: bool
  gui_ok :: bool
  render_ok :: bool
  world_ok :: bool

definition and_then ::
  "(simulator \<Rightarrow> gazebo_error option \<times> simulator) \<Rightarrow>
   (simulator \<Rightarrow> gazebo_error option \<times> simulator) \<Rightarrow>
   simulator \<Rightarrow> gazebo_error option \<times> simulator"
where
  "and_then f g s = (case f s of (None, s') \<Rightarrow> g s' | (Some e, s') \<Rightarrow> (Some e, s'))"

definition Load_reset :: "simulator \<Rightarrow> gazebo_error option \<times> simulator" where
  "Load_reset s =
     (let s1 = s\<lparr>state := Some LOAD\<rparr> in
      (None, if loaded s1 then (Close s1)\<lparr>loaded := False\<rparr> else s1))"

definition Load_xml :: "load_env \<Rightarrow> simulator \<Rightarrow> gazebo_error option \<times> simulator" where
  "Load_xml env s =
     (let s1 = emit [XmlLoad] (s\<lparr>xmlFile := True\<rparr>) in
      if xml_ok env then (None, emit [MessageLoad] s1) else (Some XmlConfigError, s1))"

definition Load_config :: "load_env \<Rightarrow> simulator \<Rightarrow> gazebo_error option \<times> simulator" where
  "Load_config env s =
     (let s1 = emit [ConfigLoad] (s\<lparr>gazeboConfig := True\<rparr>) in
      if config_ok env
      then (None, if renderEngineEnabled s1 then emit [OgreLoad] s1 else s1)
      else (Some GazeboConfigError, s1))"

definition Load_gui :: "load_env \<Rightarrow> simulator \<Rightarrow> gazebo_error option \<times> simulator" where
  "Load_gui env s =
     (if renderEngineEnabled s \<and> guiEnabled s then
        (if gui_node env then
           (let s1 = emit [GuiCreate, GuiLoad] (s\<lparr>gui := True\<rparr>) in
            if gui_ok env then (None, emit [GuiCreateCameras] s1)
            else (Some GuiLoadError, s1))
         else (None, s))
      else (None, s\<lparr>gui := False\<rparr>))"

definition Load_render :: "load_env \<Rightarrow> simulator \<Rightarrow> gazebo_error option \<times> simulator" where
  "Load_render env s =
     (if renderEngineEnabled s then
        (let s1 = emit [OgreInit] s in
         if render_ok env then (None, s1\<lparr>renderEngine := True\<rparr>)
         else (Some RenderInitError, s1))
      else (None, s))"

definition Load_world :: "load_env \<Rightarrow> simulator \<Rightarrow> gazebo_error option \<times> simulator" where
  "Load_world env s =
     (let s1 = (if gui s then emit [GuiInit] s else s);
          s2 = emit [WorldLoad] s1
      in if world_ok env then (None, s2\<lparr>loaded := True\<rparr>) else (Some WorldLoadError, s2))"

definition Load :: "load_env \<Rightarrow> simulator \<Rightarrow> gazebo_error option \<times> simulator" where
  "Load env =
     and_then Load_reset
       (and_then (Load_xml env)
         (and_then (Load_config env)
           (and_then (Load_gui env)
             (and_then (Load_render env) (Load_world env)))))"

definition Init :: "bool \<Rightarrow> simulator \<Rightarrow> gazebo_error option \<times> simulator" where
  "Init world_init_ok s =
     (let s1 = emit [WorldInit] (s\<lparr>state := Some INIT\<rparr>) in
      if world_init_ok then (None, s1) else (Some WorldInitError, s1))"

definition Fini :: "simulator \<Rightarrow> simulator" where
  "Fini s = Close (emit [WorldFini] s)"

section \<open>Sequences of operations\<close>

text \<open>
  An operation on the Simulator, with what it meets outside. A sequence of operations
  goes on after a \<open>Load\<close> or an \<open>Init\<close> that has thrown, from the state the object was left
  in: the caller may catch the error.
\<close>

datatype op =
    Op_call call
  | Op_Load load_env
  | Op_Init bool
  | Op_Close
  | Op_Fini
  | Op_MainLoop "(call list \<times> frame_clock) list"
  | Op_PhysicsLoop loop_setup "(call list \<times> clock) list"

fun exec_op :: "op \<Rightarrow> simulator \<Rightarrow> simulator" where
  "exec_op (Op_call c) s = exec_call c s"
| "exec_op (Op_Load env) s = snd (Load env s)"
| "exec_op (Op_Init ok) s = snd (Init ok s)"
| "exec_op Op_Close s = Close s"
| "exec_op Op_Fini s = Fini s"
| "exec_op (Op_MainLoop ins) s = snd (MainLoop ins s)"
| "exec_op (Op_PhysicsLoop pe ins) s = snd (PhysicsLoop pe ins s)"

definition run :: "op list \<Rightarrow> simulator \<Rightarrow> simulator" where
  "run ops s = fold exec_op ops s"

section \<open>Notions used in the statements\<close>

text \<open>The number of iterations of the physics loop that a trace records: each iteration
  calls \<open>World::Update\<close> once.\<close>

definition iterations :: "simulator \<Rightarrow> nat" where
  "iterations s = count_list (trace s) WorldUpdate"

text \<open>Inputs of a loop during which nothing is called from outside.\<close>

definition quiet :: "'c list \<Rightarrow> (call list \<times> 'c) list" where
  "quiet cs = map (Pair []) cs"

text \<open>The requests handed to \<open>nanosleep\<close> that a trace records, in order.\<close>

fun sleeps :: "event list \<Rightarrow> time list" where
  "sleeps [] = []"
| "sleeps (Nanosleep d # es) = d # sleeps es"
| "sleeps (e # es) = sleeps es"

text \<open>
  The lock discipline of a trace, read from its first event on with the stack of the
  mutexes held (the last one taken first). \<open>World::Update\<close> is called with exactly
  \<open>model_delete_mutex\<close> on top of \<open>render_mutex\<close> held, that is both, \<open>render_mutex\<close> taken
  first, and the two events after the call release them; a \<open>nanosleep\<close> starts with no
  mutex held; a release is of the mutex taken last; nothing is held at the end.
\<close>

fun locks_ok :: "mutex list \<Rightarrow> event list \<Rightarrow> bool" where
  "locks_ok held [] = (held = [])"
| "locks_ok held (e # es) =
     (case e of
        Lock m \<Rightarrow> locks_ok (m # held) es
      | Unlock m \<Rightarrow> (case held of [] \<Rightarrow> False | h # hs \<Rightarrow> h = m \<and> locks_ok hs es)
      | WorldUpdate \<Rightarrow>
          held = [model_delete_mutex, render_mutex] \<and>
          take 2 es = [Unlock model_delete_mutex, Unlock render_mutex] \<and>
          locks_ok held es
      | Nanosleep d \<Rightarrow> held = [] \<and> locks_ok held es
      | _ \<Rightarrow> locks_ok held es)"

text \<open>The three enable flags, the calls that are their setters, and the operations that
  contain such a call (a loop contains the calls made from outside while it runs).\<close>

definition enable_flags :: "simulator \<Rightarrow> bool \<times> bool \<times> bool" where
  "enable_flags s = (guiEnabled s, renderEngineEnabled s, physicsEnabled s)"

fun call_sets_flag :: "call \<Rightarrow> bool" where
  "call_sets_flag (Call_SetGuiEnabled b) = True"
| "call_sets_flag (Call_SetRenderEngineEnabled b) = True"
| "call_sets_flag (Call_SetPhysicsEnabled b) = True"
| "call_sets_flag k = False"

definition calls_set_flag :: "(call list \<times> 'c) list \<Rightarrow> bool" where
  "calls_set_flag ins = list_ex (\<lambda>i. list_ex call_sets_flag (fst i)) ins"

fun op_sets_flag :: "op \<Rightarrow> bool" where
  "op_sets_flag (Op_call k) = call_sets_flag k"
| "op_sets_flag (Op_MainLoop ins) = calls_set_flag ins"
| "op_sets_flag (Op_PhysicsLoop pe ins) = calls_set_flag ins"
| "op_sets_flag opn = False"

text \<open>
  The sleep of an iteration of the physics loop as the specification words it, to
  compare with \<open>sleep_request\<close>: in the fixed-rate case the period is \<open>1 / rate\<close> itself and
  the elapsed time is counted from the start of the iteration (the reading of line 644)
  to the reading before the sleep is chosen (line 669).
\<close>

definition spec_sleep_request :: "loop_setup \<Rightarrow> clock \<Rightarrow> simulator \<Rightarrow> time" where
  "spec_sleep_request pe c s =
     (if GetUpdateRate pe < 0 \<and> GetSimTime s + GetPauseTime s > GetRealTime s (at679 c)
      then (GetSimTime s + GetPauseTime s) - GetRealTime s (at682 c)
      else if GetUpdateRate pe > 0 \<and>
              GetRealTime s (at669 c) - GetRealTime s (at644 c) < 1 / GetUpdateRate pe
      then 1 / GetUpdateRate pe - (GetRealTime s (at669 c) - GetRealTime s (at644 c))
      else default_sleep)"

text \<open>
  The body of the render loop as the specification words it, to compare with
  \<open>MainLoop_body\<close>: a frame when \<open>currTime - lastTime \<ge> 1 / freq\<close>, made of the GUI
  update, the camera update, the graphics update and the processing of the entities to
  load and to delete, with \<open>lastTime\<close> read from the wall clock after it (\<open>after\<close>);
  otherwise a sleep for the rest of the period.
\<close>

definition spec_MainLoop_body :: "time \<Rightarrow> time \<Rightarrow> time \<Rightarrow> simulator \<Rightarrow> time \<times> simulator" where
  "spec_MainLoop_body lastTime now after s =
     (let currTime = GetWallTime now in
      if currTime - lastTime \<ge> 1 / freq then
        (GetWallTime after,
         emit [GuiUpdate, UpdateCameras, GraphicsUpdate,
               ProcessEntitiesToLoad, ProcessEntitiesToDelete] s)
      else (lastTime, emit [Nanosleep (1 / freq - (currTime - lastTime))] s))"

text \<open>The number of times a trace joins the physics thread.\<close>

definition joins :: "simulator \<Rightarrow> nat" where
  "joins s = count_list (trace s) JoinPhysicsThread"

section \<open>Example inputs\<close>

text \<open>A conversion to \<open>Time\<close> that cuts a number of seconds down to whole nanoseconds.\<close>

definition truncate_ns :: "real \<Rightarrow> time" where
  "truncate_ns d = real_of_int \<lfloor>d * 1000000000\<rfloor> / 1000000000"

definition pe0 :: loop_setup where
  "pe0 = \<lparr>GetStepTime = 1 / 1000, GetUpdateRate = 100, Time_of_double = truncate_ns\<rparr>"

definition c0 :: clock where
  "c0 = \<lparr>at644 = 1, at661 = 1, at669 = 1, at679 = 1, at682 = 1, at706 = 1\<rparr>"

definition s0 :: simulator where
  "s0 = SetPaused True (Simulator 0)"

text \<open>An iteration that starts at second 0, reaches line 661 at second 1 and spends a
  millisecond in the world update.\<close>

definition c_late :: clock where
  "c_late = \<lparr>at644 = 0, at661 = 1, at669 = 1001 / 1000, at679 = 1001 / 1000,
     at682 = 1001 / 1000, at706 = 1001 / 1000\<rparr>"

text \<open>An iteration whose world update lasts 333333333 ns.\<close>

definition c_third :: clock where
  "c_third = \<lparr>at644 = 0, at661 = 0, at669 = 333333333 / 1000000000,
     at679 = 333333333 / 1000000000, at682 = 333333333 / 1000000000,
     at706 = 333333333 / 1000000000\<rparr>"

definition c_zero :: clock where
  "c_zero = \<lparr>at644 = 0, at661 = 0, at669 = 0, at679 = 0, at682 = 0, at706 = 0\<rparr>"

definition c_slow :: clock where
  "c_slow = \<lparr>at644 = 1001 / 1000, at661 = 1001 / 1000, at669 = 5, at679 = 5, at682 = 5,
     at706 = 5\<rparr>"

definition sT :: simulator where
  "sT = SetTimeout 1 (Simulator 0)"

definition sSel :: simulator where
  "sSel = (Simulator 0)\<lparr>selectedEntity := Some 7\<rparr>"

text \<open>Entity 3 is a child of entity 2, which is a child of entity 1, which has no parent.\<close>

definition parent0 :: "entity \<Rightarrow> entity option" where
  "parent0 e = (if e = 3 then Some 2 else if e = 2 then Some 1 else None)"

definition env_ok :: load_env where
  "env_ok = \<lparr>xml_ok = True, config_ok = True, gui_node = True, gui_ok = True,
     render_ok = True, world_ok = True\<rparr>"

definition sL :: simulator where
  "sL = run [Op_Load env_ok] (Simulator 0)"

definition fc_eq :: frame_clock where
  "fc_eq = \<lparr>at355 = 1 / 80, at358 = 1 / 80, at369 = 1 / 80\<rparr>"

definition fc_frame :: frame_clock where
  "fc_frame = \<lparr>at355 = 1, at358 = 1, at369 = 1001 / 1000\<rparr>"

section \<open>Properties of the physics loop\<close>

lemmas sim_defs = emit_def GetWallTime_def GetSimTime_def GetPauseTime_def GetStartTime_def
  GetRealTime_def IsPaused_def GetStepInc_def SetPaused_def SetStepInc_def

lemma body_paused:
  assumes "pause s" "\<not> stepInc s"
  shows "simTime (snd (PhysicsLoop_body pe c s)) = simTime s"
    and "pauseTime (snd (PhysicsLoop_body pe c s)) = pauseTime s + GetStepTime pe"
    and "pause (snd (PhysicsLoop_body pe c s))"
    and "\<not> stepInc (snd (PhysicsLoop_body pe c s))"
    and "iterations (snd (PhysicsLoop_body pe c s)) = Suc (iterations s)"
  using assms by (simp_all add: PhysicsLoop_body_def Let_def sim_defs iterations_def)

lemma while_paused:
  "pause s \<Longrightarrow> \<not> stepInc s \<Longrightarrow>
   simTime (snd (PhysicsLoop_while pe (quiet cs) s)) = simTime s \<and>
   pause (snd (PhysicsLoop_while pe (quiet cs) s)) \<and>
   \<not> stepInc (snd (PhysicsLoop_while pe (quiet cs) s)) \<and>
   iterations s \<le> iterations (snd (PhysicsLoop_while pe (quiet cs) s)) \<and>
   pauseTime (snd (PhysicsLoop_while pe (quiet cs) s)) =
     pauseTime s +
     real (iterations (snd (PhysicsLoop_while pe (quiet cs) s)) - iterations s) * GetStepTime pe"
proof (induction cs arbitrary: s)
  case Nil
  then show ?case by (simp add: quiet_def)
next
  case (Cons c cs)
  obtain b s' where b: "PhysicsLoop_body pe c s = (b, s')"
    by (cases "PhysicsLoop_body pe c s")
  from body_paused[OF Cons.prems, of pe c] b
  have s': "simTime s' = simTime s" "pauseTime s' = pauseTime s + GetStepTime pe"
    "pause s'" "\<not> stepInc s'" "iterations s' = Suc (iterations s)" by simp_all
  show ?case
  proof (cases "userQuit s")
    case True
    then show ?thesis using Cons.prems by (simp add: quiet_def exec_calls_def)
  next
    case False
    show ?thesis
    proof (cases b)
      case True
      then show ?thesis using False b s' by (simp add: quiet_def exec_calls_def)
    next
      case bF: False
      from Cons.IH[OF s'(3,4)] show ?thesis using False b bF s'
        by (simp add: Suc_diff_le algebra_simps quiet_def exec_calls_def)
    qed
  qed
qed

text \<open>
  Claim C2. While the simulation is paused and no step is requested, an iteration of the
  physics loop leaves \<open>simTime\<close> as it is and adds one physics step to \<open>pauseTime\<close>; over
  any number of such iterations in a row (a run of the loop during which nothing is
  called from outside) \<open>simTime\<close> stays the same, and \<open>pauseTime\<close> grows by one step for
  each iteration run.
\<close>

theorem paused_iterations_freeze_simTime:
  "pause s \<Longrightarrow> \<not> stepInc s \<Longrightarrow>
   (simTime (snd (PhysicsLoop_body pe c s)) = simTime s \<and>
    pauseTime (snd (PhysicsLoop_body pe c s)) = pauseTime s + GetStepTime pe) \<and>
   (simTime (snd (PhysicsLoop_while pe (quiet cs) s)) = simTime s \<and>
    pauseTime (snd (PhysicsLoop_while pe (quiet cs) s)) =
      pauseTime s +
      real (iterations (snd (PhysicsLoop_while pe (quiet cs) s)) - iterations s) * GetStepTime pe)"
  using body_paused(1,2)[of s pe c] while_paused[of s pe cs] by simp

theorem paused_iterations_freeze_simTime_witness:
  "pause s0 \<and> \<not> stepInc s0 \<and>
   iterations (snd (PhysicsLoop_while pe0 (quiet [c0, c0, c0]) s0)) = 3 \<and>
   simTime (snd (PhysicsLoop_while pe0 (quiet [c0, c0, c0]) s0)) = 0 \<and>
   pauseTime (snd (PhysicsLoop_while pe0 (quiet [c0, c0, c0]) s0)) = 3 / 1000"
proof -
  have p: "pause s0" "\<not> stepInc s0"
    by (simp_all add: s0_def Simulator_def sim_defs)
  have i: "iterations (snd (PhysicsLoop_while pe0 (quiet [c0, c0, c0]) s0)) = 3"
    "iterations s0 = 0" "simTime s0 = 0" "pauseTime s0 = 0" "GetStepTime pe0 = 1 / 1000"
    by (simp_all add: iterations_def quiet_def exec_calls_def pe0_def c0_def s0_def
        Simulator_def PhysicsLoop_body_def Let_def sim_defs)
  show ?thesis
    using paused_iterations_freeze_simTime[OF p, of pe0 c0 "[c0, c0, c0]"] p i by simp
qed

lemma sleeps_append: "sleeps (xs @ ys) = sleeps xs @ sleeps ys"
  by (induction xs rule: sleeps.induct) simp_all

text \<open>
  Claim C3, as amended. An iteration of the physics loop sleeps once, and the request
  is: with a negative update rate and \<open>simTime + pauseTime\<close> above the real time read at
  line 679, \<open>simTime + pauseTime\<close> minus the real time read at line 682; with a positive
  rate and less wall time between the readings of lines 661 and 669 (that is, across
  the world update) than the period, the period minus that time, where the period is
  the \<open>Time\<close> made from \<open>1 / rate\<close>; in every other case the default request of 10000 ns,
  which is positive.
\<close>

theorem sleep_policy:
  "(let r = snd (PhysicsLoop_body pe c s) in
    sleeps (trace r) = sleeps (trace s) @
      [if GetUpdateRate pe < 0 \<and> simTime r + pauseTime r > GetRealTime r (at679 c)
       then (simTime r + pauseTime r) - GetRealTime r (at682 c)
       else if GetUpdateRate pe > 0 \<and>
               at669 c - at661 c < Time_of_double pe (1 / GetUpdateRate pe)
       then Time_of_double pe (1 / GetUpdateRate pe) - (at669 c - at661 c)
       else default_sleep]) \<and>
   default_sleep = 10000 / 1000000000 \<and> 0 < default_sleep"
  by (simp add: PhysicsLoop_body_def Let_def sim_defs sleep_request_def physicsUpdatePeriod_def
      sleeps_append default_sleep_def)

lemma body_step_requested:
  assumes "stepInc s"
  shows "simTime (snd (PhysicsLoop_body pe c s)) = simTime s + GetStepTime pe"
    and "pauseTime (snd (PhysicsLoop_body pe c s)) = pauseTime s"
    and "timeout s > 0 \<and> GetRealTime s (at706 c) > timeout s \<Longrightarrow>
         fst (PhysicsLoop_body pe c s) \<and> userQuit (snd (PhysicsLoop_body pe c s)) \<and>
         stepInc (snd (PhysicsLoop_body pe c s)) \<and>
         pause (snd (PhysicsLoop_body pe c s)) = pause s"
    and "\<not> (timeout s > 0 \<and> GetRealTime s (at706 c) > timeout s) \<Longrightarrow>
         \<not> fst (PhysicsLoop_body pe c s) \<and> pause (snd (PhysicsLoop_body pe c s)) \<and>
         \<not> stepInc (snd (PhysicsLoop_body pe c s)) \<and>
         userQuit (snd (PhysicsLoop_body pe c s)) = userQuit s"
  using assms by (auto simp add: PhysicsLoop_body_def Let_def sim_defs)

text \<open>
  Claim C1, as amended. From a paused state, after \<open>SetStepInc(true)\<close> (and whether or
  not \<open>SetPaused(false)\<close> follows it), the next iteration of the physics loop advances
  \<open>simTime\<close> by exactly one physics step and leaves \<open>pauseTime\<close> alone. When the timeout
  check of that iteration does not fire, the iteration ends with the simulation paused
  and the step request cleared, and the iteration after it does not advance \<open>simTime\<close>.
  When the check fires, the loop is left through \<open>break\<close> with \<open>userQuit\<close> set, the step
  request still standing and the pause flag as it was.
\<close>

theorem single_step_repauses:
  assumes "pause s"
    and "s1 = (if unpaused then SetPaused False (SetStepInc True s) else SetStepInc True s)"
  shows "(let r = snd (PhysicsLoop_body pe c s1) in
          simTime r = simTime s + GetStepTime pe \<and> pauseTime r = pauseTime s \<and>
          (if timeout s > 0 \<and> GetRealTime s (at706 c) > timeout s
           then fst (PhysicsLoop_body pe c s1) \<and> userQuit r \<and> stepInc r \<and>
                pause r = (\<not> unpaused)
           else \<not> fst (PhysicsLoop_body pe c s1) \<and> pause r \<and> \<not> stepInc r \<and>
                simTime (snd (PhysicsLoop_body pe c' r)) = simTime r))"
proof -
  have s1: "stepInc s1" "simTime s1 = simTime s" "pauseTime s1 = pauseTime s"
    "timeout s1 = timeout s" "startTime s1 = startTime s" "pause s1 = (\<not> unpaused)"
    using assms by (simp_all add: sim_defs)
  have rt: "GetRealTime s1 = GetRealTime s"
    using s1 by (simp add: fun_eq_iff GetRealTime_def)
  note b = body_step_requested[OF s1(1), where pe = pe and c = c]
  show ?thesis
  proof (cases "timeout s > 0 \<and> GetRealTime s (at706 c) > timeout s")
    case True
    with b(3) s1 rt
    have "fst (PhysicsLoop_body pe c s1) \<and> userQuit (snd (PhysicsLoop_body pe c s1)) \<and>
          stepInc (snd (PhysicsLoop_body pe c s1)) \<and>
          pause (snd (PhysicsLoop_body pe c s1)) = (\<not> unpaused)"
      by simp
    with True b(1,2) s1 show ?thesis by (simp add: Let_def)
  next
    case False
    with b(4) s1 rt
    have r: "\<not> fst (PhysicsLoop_body pe c s1)" "pause (snd (PhysicsLoop_body pe c s1))"
      "\<not> stepInc (snd (PhysicsLoop_body pe c s1))" by simp_all
    from body_paused(1)[OF r(2,3)] False b(1,2) s1 r show ?thesis by (simp add: Let_def)
  qed
qed

theorem single_step_repauses_witness:
  "pause s0 \<and>
   (let r = snd (PhysicsLoop_body pe0 c0 (SetPaused False (SetStepInc True s0))) in
     simTime r = 1 / 1000 \<and> pauseTime r = 0 \<and> pause r \<and> \<not> stepInc r \<and>
     simTime (snd (PhysicsLoop_body pe0 c0 r)) = 1 / 1000)"
proof -
  have p: "pause s0" by (simp add: s0_def Simulator_def sim_defs)
  have v: "simTime s0 = 0" "pauseTime s0 = 0" "timeout s0 = - 1" "GetStepTime pe0 = 1 / 1000"
    by (simp_all add: s0_def pe0_def Simulator_def sim_defs)
  show ?thesis
    using single_step_repauses[OF p, of "SetPaused False (SetStepInc True s0)" True pe0 c0 c0]
      p v
    by (simp add: Let_def)
qed

text \<open>
  The claim as first stated fails when a timeout of one second is set and the real time
  read at line 706 is five seconds: the simulation is paused, a step is requested, and
  after the iteration the step request is still there.
\<close>

theorem single_step_timeout_counterexample:
  "pause (SetTimeout 1 s0) \<and>
   \<not> (pause (snd (PhysicsLoop_body pe0 c_slow (SetStepInc True (SetTimeout 1 s0)))) \<and>
      \<not> stepInc (snd (PhysicsLoop_body pe0 c_slow (SetStepInc True (SetTimeout 1 s0)))))"
  by (simp add: s0_def pe0_def c_slow_def Simulator_def SetTimeout_def PhysicsLoop_body_def
      Let_def sim_defs)

lemma body_frame:
  "startTime (snd (PhysicsLoop_body pe c s)) = startTime s"
  "timeout (snd (PhysicsLoop_body pe c s)) = timeout s"
  "fst (PhysicsLoop_body pe c s) = (timeout s > 0 \<and> GetRealTime s (at706 c) > timeout s)"
  "userQuit (snd (PhysicsLoop_body pe c s)) = (userQuit s \<or> fst (PhysicsLoop_body pe c s))"
  "iterations (snd (PhysicsLoop_body pe c s)) = Suc (iterations s)"
  by (simp_all add: PhysicsLoop_body_def Let_def sim_defs iterations_def)

lemma while_before_timeout:
  "\<not> userQuit s \<Longrightarrow>
   \<forall>c \<in> set cs. \<not> (timeout s > 0 \<and> GetRealTime s (at706 c) > timeout s) \<Longrightarrow>
   \<not> fst (PhysicsLoop_while pe (quiet cs) s) \<and>
   \<not> userQuit (snd (PhysicsLoop_while pe (quiet cs) s)) \<and>
   startTime (snd (PhysicsLoop_while pe (quiet cs) s)) = startTime s \<and>
   timeout (snd (PhysicsLoop_while pe (quiet cs) s)) = timeout s \<and>
   iterations (snd (PhysicsLoop_while pe (quiet cs) s)) = iterations s + length cs"
proof (induction cs arbitrary: s)
  case Nil
  then show ?case by (simp add: quiet_def)
next
  case (Cons c cs)
  obtain b s' where b: "PhysicsLoop_body pe c s = (b, s')"
    by (cases "PhysicsLoop_body pe c s")
  from body_frame[of pe c s] b Cons.prems
  have s': "startTime s' = startTime s" "timeout s' = timeout s" "\<not> b" "\<not> userQuit s'"
    "iterations s' = Suc (iterations s)" by simp_all
  have "\<forall>c \<in> set cs. \<not> (timeout s' > 0 \<and> GetRealTime s' (at706 c) > timeout s')"
    using Cons.prems(2) s' by (simp add: GetRealTime_def)
  from Cons.IH[OF s'(4) this] show ?case
    using Cons.prems(1) b s' by (simp add: quiet_def exec_calls_def)
qed

lemma while_quiet_Cons:
  "PhysicsLoop_while pe (quiet (c # cs)) s =
     (if userQuit s then (True, s)
      else (case PhysicsLoop_body pe c s of
              (True, s') \<Rightarrow> (True, s')
            | (False, s') \<Rightarrow> PhysicsLoop_while pe (quiet cs) s'))"
  unfolding quiet_def by (simp add: exec_calls_def)

lemma while_quiet_Nil: "PhysicsLoop_while pe (quiet []) s = (userQuit s, s)"
  by (simp add: quiet_def)

lemma while_quiet_append:
  "\<not> fst (PhysicsLoop_while pe (quiet cs) s) \<Longrightarrow>
   PhysicsLoop_while pe (quiet (cs @ cs')) s =
   PhysicsLoop_while pe (quiet cs') (snd (PhysicsLoop_while pe (quiet cs) s))"
proof (induction cs arbitrary: s)
  case Nil
  then show ?case by (simp add: quiet_def)
next
  case (Cons c cs)
  then show ?case
    by (auto simp add: quiet_def exec_calls_def split: if_splits prod.splits bool.splits)
qed

text \<open>
  Claim C4, as amended. In a run of the physics loop that starts with \<open>userQuit\<close> unset,
  as long as no timeout check has found a positive timeout below the real time read at
  line 706, the loop is still running and \<open>userQuit\<close> is unset: the timeout path never
  quits before \<open>realTime() > timeout\<close>, and never at all for a timeout that is not
  positive. The first iteration whose check finds the real time above a positive timeout
  sets \<open>userQuit\<close> and leaves the loop at once; otherwise the loop goes on. How long after
  the real time passed the timeout that check comes is not bounded by the loop.
\<close>

theorem timeout_quits_at_first_late_check:
  assumes "\<not> userQuit s"
    and "\<forall>c \<in> set cs. \<not> (timeout s > 0 \<and> GetRealTime s (at706 c) > timeout s)"
  shows "(\<not> fst (PhysicsLoop_while pe (quiet cs) s) \<and>
          \<not> userQuit (snd (PhysicsLoop_while pe (quiet cs) s)) \<and>
          iterations (snd (PhysicsLoop_while pe (quiet cs) s)) = iterations s + length cs) \<and>
         (if timeout s > 0 \<and> GetRealTime s (at706 c) > timeout s
          then fst (PhysicsLoop_while pe (quiet (cs @ c # cs')) s) \<and>
               userQuit (snd (PhysicsLoop_while pe (quiet (cs @ c # cs')) s)) \<and>
               iterations (snd (PhysicsLoop_while pe (quiet (cs @ c # cs')) s)) =
                 iterations s + length cs + 1
          else \<not> fst (PhysicsLoop_while pe (quiet (cs @ [c])) s) \<and>
               \<not> userQuit (snd (PhysicsLoop_while pe (quiet (cs @ [c])) s)))"
proof -
  let ?r = "snd (PhysicsLoop_while pe (quiet cs) s)"
  note w = while_before_timeout[OF assms, of pe]
  have app: "PhysicsLoop_while pe (quiet (cs @ xs)) s = PhysicsLoop_while pe (quiet xs) ?r" for xs
    using w while_quiet_append by simp
  obtain b s' where b: "PhysicsLoop_body pe c ?r = (b, s')"
    by (cases "PhysicsLoop_body pe c ?r")
  from body_frame[of pe c ?r] b w
  have s': "b = (timeout s > 0 \<and> GetRealTime s (at706 c) > timeout s)"
    "userQuit s' = b" "iterations s' = Suc (iterations s + length cs)"
    by (simp_all add: GetRealTime_def)
  have nq: "\<not> userQuit ?r" using w by simp
  show ?thesis
  proof (cases "timeout s > 0 \<and> GetRealTime s (at706 c) > timeout s")
    case True
    with s' b nq have "PhysicsLoop_while pe (quiet (c # cs')) ?r = (True, s')"
      by (simp add: while_quiet_Cons)
    with app[of "c # cs'"] have "PhysicsLoop_while pe (quiet (cs @ c # cs')) s = (True, s')"
      by simp
    with True w s' show ?thesis by auto
  next
    case False
    with s' b nq have "PhysicsLoop_while pe (quiet [c]) ?r = (False, s')"
      by (simp add: while_quiet_Cons while_quiet_Nil)
    with app[of "[c]"] have "PhysicsLoop_while pe (quiet (cs @ [c])) s = (False, s')"
      by simp
    with False w s' show ?thesis by auto
  qed
qed

theorem timeout_quits_at_first_late_check_witness:
  "\<not> userQuit sT \<and>
   \<not> (timeout sT > 0 \<and> GetRealTime sT (at706 c0) > timeout sT) \<and>
   \<not> userQuit (snd (PhysicsLoop_while pe0 (quiet [c0, c0]) sT)) \<and>
   userQuit (snd (PhysicsLoop_while pe0 (quiet ([c0, c0] @ c_slow # [c0])) sT)) \<and>
   iterations (snd (PhysicsLoop_while pe0 (quiet ([c0, c0] @ c_slow # [c0])) sT)) = 3"
proof -
  have h1: "\<not> userQuit sT"
    by (simp add: sT_def SetTimeout_def Simulator_def)
  have h2: "\<forall>c \<in> set [c0, c0]. \<not> (timeout sT > 0 \<and> GetRealTime sT (at706 c) > timeout sT)"
    by (simp add: sT_def SetTimeout_def Simulator_def c0_def sim_defs)
  have h3: "timeout sT > 0 \<and> GetRealTime sT (at706 c_slow) > timeout sT"
    by (simp add: sT_def SetTimeout_def Simulator_def c_slow_def sim_defs)
  have h4: "iterations sT = 0"
    by (simp add: sT_def SetTimeout_def Simulator_def iterations_def)
  from timeout_quits_at_first_late_check[OF h1 h2, where c = c_slow and pe = pe0 and cs' = "[c0]"]
  have "\<not> userQuit (snd (PhysicsLoop_while pe0 (quiet [c0, c0]) sT)) \<and>
        userQuit (snd (PhysicsLoop_while pe0 (quiet ([c0, c0] @ c_slow # [c0])) sT)) \<and>
        iterations (snd (PhysicsLoop_while pe0 (quiet ([c0, c0] @ c_slow # [c0])) sT)) = 3"
    unfolding if_P[OF h3] h4 by simp
  with h1 h2 show ?thesis by simp
qed

text \<open>
  The bound of one update period fails: with a timeout of one second and an update rate
  of 100 per second, an iteration whose check reads one second does not quit, and the
  next one, whose world update lasts until second five, quits through the timeout path
  at a real time that is more than one period (a hundredth of a second) past the timeout.
\<close>

theorem timeout_latency_counterexample:
  "\<not> userQuit (snd (PhysicsLoop_while pe0 (quiet [c0]) sT)) \<and>
   fst (PhysicsLoop_body pe0 c_slow (snd (PhysicsLoop_while pe0 (quiet [c0]) sT))) \<and>
   \<not> (GetRealTime sT (at706 c_slow) \<le> timeout sT + physicsUpdatePeriod pe0)"
  by (simp add: sT_def SetTimeout_def Simulator_def c0_def c_slow_def pe0_def quiet_def
      exec_calls_def PhysicsLoop_body_def Let_def sim_defs physicsUpdatePeriod_def
      truncate_ns_def)

lemma take2_append: "take 2 es = [a, b] \<Longrightarrow> take 2 (es @ ys) = [a, b]"
  by (cases es; cases "tl es") auto

lemma locks_ok_append:
  "locks_ok held xs \<Longrightarrow> locks_ok [] ys \<Longrightarrow> locks_ok held (xs @ ys)"
proof (induction xs arbitrary: held)
  case Nil
  then show ?case by simp
next
  case (Cons e xs)
  show ?case
  proof (cases e)
    case WorldUpdate
    with Cons.prems have t: "take 2 xs = [Unlock model_delete_mutex, Unlock render_mutex]"
      and h: "held = [model_delete_mutex, render_mutex]" and l: "locks_ok held xs" by auto
    from Cons.IH[OF l Cons.prems(2)] take2_append[OF t, of ys] h WorldUpdate
    show ?thesis by (simp del: take_append)
  next
    case (Unlock m)
    with Cons show ?thesis by (cases held) simp_all
  qed (use Cons in auto)
qed

lemma locks_ok_snoc:
  "locks_ok [] (trace s) \<Longrightarrow> locks_ok [] es \<Longrightarrow> locks_ok [] (trace (emit es s))"
  by (simp add: emit_def locks_ok_append)

lemma exec_call_locks:
  "locks_ok [] (trace s) \<Longrightarrow> locks_ok [] (trace (exec_call k s))"
proof (cases k)
  case (Call_SetPaused p)
  assume "locks_ok [] (trace s)"
  from locks_ok_append[OF this, of "[Lock render_mutex, Unlock render_mutex]"]
    locks_ok_append[OF this, of "[Lock render_mutex, PauseSignal p, Unlock render_mutex]"]
  show ?thesis using Call_SetPaused by (simp add: sim_defs Let_def)
next
  case (Call_SetStepInc b)
  assume "locks_ok [] (trace s)"
  from locks_ok_append[OF this, of "[Lock render_mutex, Unlock render_mutex]"]
  show ?thesis using Call_SetStepInc by (simp add: sim_defs)
next
  case (Call_SetSelectedEntity ent)
  assume l: "locks_ok [] (trace s)"
  have u: "locks_ok [] (trace (unselect s))"
    using l locks_ok_append[OF l, of "[ShowSelectionBox x False, SetSelected x False]" for x]
    by (simp add: unselect_def emit_def split: option.splits)
  show ?thesis
    using Call_SetSelectedEntity u l
      locks_ok_append[OF u, of "[ShowSelectionBox x True, SetSelected x True]" for x]
    by (simp add: SetSelectedEntity_def Let_def emit_def split: option.splits)
qed (simp_all add: SetSimTime_def SetUserQuit_def SetGuiEnabled_def
      SetRenderEngineEnabled_def SetTimeout_def SetPhysicsEnabled_def)

lemma exec_calls_locks:
  "locks_ok [] (trace s) \<Longrightarrow> locks_ok [] (trace (exec_calls ks s))"
  unfolding exec_calls_def
  by (induction ks arbitrary: s) (simp_all add: exec_call_locks)

lemma body_locks:
  assumes "locks_ok [] (trace s)"
  shows "locks_ok [] (trace (snd (PhysicsLoop_body pe c s)))"
proof -
  have "\<exists>es. trace (snd (PhysicsLoop_body pe c s)) = trace s @ es \<and> locks_ok [] es"
    by (simp add: PhysicsLoop_body_def Let_def sim_defs)
  with assms show ?thesis by (auto simp add: locks_ok_append)
qed

lemma while_locks:
  "locks_ok [] (trace s) \<Longrightarrow> locks_ok [] (trace (snd (PhysicsLoop_while pe ins s)))"
proof (induction ins arbitrary: s)
  case Nil
  then show ?case by simp
next
  case (Cons i ins)
  obtain ks c where i: "i = (ks, c)" by (cases i)
  let ?s0 = "exec_calls ks s"
  have l0: "locks_ok [] (trace ?s0)" using Cons.prems by (rule exec_calls_locks)
  obtain b s' where b: "PhysicsLoop_body pe c ?s0 = (b, s')"
    by (cases "PhysicsLoop_body pe c ?s0")
  from body_locks[OF l0, of pe c] b have l': "locks_ok [] (trace s')" by simp
  from Cons.IH[OF l'] l0 l' show ?case using i b by (cases b) (simp_all add: Let_def)
qed

text \<open>
  Claim C6. From a trace that keeps the lock discipline, every iteration of the physics
  loop calls \<open>World::Update\<close> once and keeps the discipline, and so does every run of
  \<open>PhysicsLoop\<close>, whatever is called from outside between its iterations: the update
  runs with both mutexes held, \<open>render_mutex\<close> taken before \<open>model_delete_mutex\<close>, both
  are released right after it, and no mutex is held when the loop sleeps.
\<close>

theorem update_under_both_locks:
  assumes "locks_ok [] (trace s)"
  shows "locks_ok [] (trace (snd (PhysicsLoop_body pe c s))) \<and>
         iterations (snd (PhysicsLoop_body pe c s)) = Suc (iterations s) \<and>
         locks_ok [] (trace (snd (PhysicsLoop pe ins s)))"
proof -
  have "locks_ok [] (trace (emit [InitForThread] s))"
    using assms by (simp add: emit_def locks_ok_append)
  from while_locks[OF this] body_locks[OF assms] body_frame(5) show ?thesis
    by (simp add: PhysicsLoop_def)
qed

theorem update_under_both_locks_witness:
  "locks_ok [] (trace s0) \<and>
   locks_ok [] (trace (snd (PhysicsLoop pe0 [([Call_SetStepInc True], c0), ([], c0)] s0))) \<and>
   iterations (snd (PhysicsLoop pe0 [([Call_SetStepInc True], c0), ([], c0)] s0)) = 2"
proof -
  have l: "locks_ok [] (trace s0)"
    by (simp add: s0_def Simulator_def sim_defs)
  have i: "iterations (snd (PhysicsLoop pe0 [([Call_SetStepInc True], c0), ([], c0)] s0)) = 2"
    by (simp add: PhysicsLoop_def exec_calls_def s0_def pe0_def c0_def Simulator_def
        PhysicsLoop_body_def Let_def sim_defs iterations_def)
  from update_under_both_locks[OF l, of pe0 c0 "[([Call_SetStepInc True], c0), ([], c0)]"] l i
  show ?thesis by simp
qed

text \<open>
  The three cases of the sleep policy on the paused Simulator \<open>s0\<close>: a rate of 100 with no
  time spent in the update, a negative rate with the clock at the start time, and a rate
  of zero.
\<close>

theorem sleep_policy_witness:
  "sleeps (trace (snd (PhysicsLoop_body pe0 c0 s0))) = [1 / 100] \<and>
   sleeps (trace (snd (PhysicsLoop_body (pe0\<lparr>GetUpdateRate := - 1\<rparr>) c_zero s0))) = [1 / 1000] \<and>
   sleeps (trace (snd (PhysicsLoop_body (pe0\<lparr>GetUpdateRate := 0\<rparr>) c0 s0))) = [1 / 100000] \<and>
   sleeps (trace (snd (PhysicsLoop_body (pe0\<lparr>GetUpdateRate := 3\<rparr>) c0 s0))) =
     [333333333 / 1000000000]"
proof -
  have s: "sleeps (trace s0) = []" "startTime s0 = 0" "pause s0" "\<not> stepInc s0"
    "pauseTime s0 = 0" "simTime s0 = 0"
    by (simp_all add: s0_def Simulator_def sim_defs)
  have r: "simTime (snd (PhysicsLoop_body pe c s0)) = 0"
    "pauseTime (snd (PhysicsLoop_body pe c s0)) = GetStepTime pe"
    "startTime (snd (PhysicsLoop_body pe c s0)) = 0" for pe c
    using body_paused(1,2)[OF s(3,4), of pe c] body_frame(1)[of pe c s0] s by simp_all
  have p: "Time_of_double pe0 (1 / 100) = 1 / 100"
    "Time_of_double pe0 (1 / 3) = 333333333 / 1000000000"
    by (simp_all add: pe0_def truncate_ns_def)
  have g: "GetStepTime pe0 = 1 / 1000" "GetUpdateRate pe0 = 100"
    by (simp_all add: pe0_def)
  have c: "at661 c0 = 1" "at669 c0 = 1" "at679 c_zero = 0" "at682 c_zero = 0"
    by (simp_all add: c0_def c_zero_def)
  have 1: "sleeps (trace (snd (PhysicsLoop_body pe0 c0 s0))) = [1 / 100]"
    using sleep_policy[of pe0 c0 s0] by (simp add: Let_def s g p c)
  have 2: "sleeps (trace (snd (PhysicsLoop_body (pe0\<lparr>GetUpdateRate := - 1\<rparr>) c_zero s0))) =
     [1 / 1000]"
    using sleep_policy[of "pe0\<lparr>GetUpdateRate := - 1\<rparr>" c_zero s0]
    by (simp add: Let_def r s g c GetRealTime_def GetWallTime_def)
  have 3: "sleeps (trace (snd (PhysicsLoop_body (pe0\<lparr>GetUpdateRate := 0\<rparr>) c0 s0))) =
     [1 / 100000]"
    using sleep_policy[of "pe0\<lparr>GetUpdateRate := 0\<rparr>" c0 s0]
    by (simp add: Let_def s)
  have 4: "sleeps (trace (snd (PhysicsLoop_body (pe0\<lparr>GetUpdateRate := 3\<rparr>) c0 s0))) =
     [333333333 / 1000000000]"
    using sleep_policy[of "pe0\<lparr>GetUpdateRate := 3\<rparr>" c0 s0]
    by (simp add: Let_def s p c)
  from 1 2 3 4 show ?thesis by blast
qed

text \<open>
  The claim as first stated fails in the fixed-rate case on two inputs. With a rate of
  100 and an iteration that began 1.001 s before the sleep is chosen, the time since the
  start of the iteration is not below the period, yet the code sleeps for 9 ms: only the
  millisecond since line 661 counts. With a rate of 3, a conversion that cuts the period
  down to 333333333 ns and an update that lasts 333333333 ns, the elapsed time is below
  \<open>1 / rate\<close>, yet the code sleeps for the default request.
\<close>

theorem sleep_policy_counterexample:
  "sleeps (trace (snd (PhysicsLoop_body pe0 c_late s0))) = [9 / 1000] \<and>
   spec_sleep_request pe0 c_late (snd (PhysicsLoop_body pe0 c_late s0)) = 1 / 100000 \<and>
   sleeps (trace (snd (PhysicsLoop_body (pe0\<lparr>GetUpdateRate := 3\<rparr>) c_third s0))) =
     [1 / 100000] \<and>
   spec_sleep_request (pe0\<lparr>GetUpdateRate := 3\<rparr>) c_third
     (snd (PhysicsLoop_body (pe0\<lparr>GetUpdateRate := 3\<rparr>) c_third s0)) = 1 / 3000000000"
  by (simp add: PhysicsLoop_body_def spec_sleep_request_def sleep_request_def
      physicsUpdatePeriod_def default_sleep_def truncate_ns_def pe0_def c_late_def c_third_def
      s0_def Simulator_def Let_def sim_defs)

section \<open>Properties of the selection and of the parent search\<close>

text \<open>
  Claim C9. After \<open>SetSelectedEntity(ent)\<close> with a \<open>ent\<close> that is not NULL the selected
  entity is \<open>ent\<close>, also when the call is repeated with the same entity. The first \<open>if\<close>
  always leaves no selection, so the test \<open>selectedEntity != ent\<close> fails exactly when
  \<open>ent\<close> is NULL: only then is the \<open>else\<close> branch taken, and the branch that calls through
  \<open>ent\<close> never meets a NULL pointer.
\<close>

theorem reselect_keeps_selection:
  "(\<exists>r. SetSelectedEntity (Some e) s = Inr r \<and> GetSelectedEntity r = Some e \<and>
        (\<exists>r'. SetSelectedEntity (Some e) r = Inr r' \<and> GetSelectedEntity r' = Some e)) \<and>
   selectedEntity (unselect s) = None \<and>
   ((selectedEntity (unselect s) = ent) = (ent = None)) \<and>
   SetSelectedEntity ent s \<noteq> Inl NullDereference"
  by (auto simp add: SetSelectedEntity_def GetSelectedEntity_def unselect_def emit_def Let_def
      split: option.splits)

theorem reselect_keeps_selection_witness:
  "SetSelectedEntity (Some 7) sSel =
     Inr (sSel\<lparr>trace := [ShowSelectionBox 7 False, SetSelected 7 False,
                           ShowSelectionBox 7 True, SetSelected 7 True]\<rparr>)"
proof -
  from reselect_keeps_selection[of 7 sSel None]
  obtain r where "SetSelectedEntity (Some 7) sSel = Inr r" "GetSelectedEntity r = Some 7"
    by blast
  then show ?thesis
    by (simp add: SetSelectedEntity_def sSel_def Simulator_def unselect_def emit_def Let_def)
qed

lemma ancestor_None: "ancestor GetParent n None = None"
  by (cases n) simp_all

lemma parent_loop_found:
  assumes d: "parent_loop GetParent is_a entity = Some res"
  shows "\<forall>m. res = Inr m \<longrightarrow>
           (\<exists>n a. ancestor GetParent n entity = Some a \<and> is_a a \<and> m = Some a)"
proof (rule parent_loop.raw_induct[where P = "\<lambda>gp ia ent res. \<forall>m. res = Inr m \<longrightarrow>
           (\<exists>n a. ancestor gp n ent = Some a \<and> ia a \<and> m = Some a)", OF _ d])
  fix f :: "(entity \<Rightarrow> entity option) \<Rightarrow> (entity \<Rightarrow> bool) \<Rightarrow> entity option \<Rightarrow>
            (fault + entity option) option"
    and gp ia ent y
  assume IH: "\<And>gp ia ent y. f gp ia ent = Some y \<Longrightarrow> \<forall>m. y = Inr m \<longrightarrow>
           (\<exists>n a. ancestor gp n ent = Some a \<and> ia a \<and> m = Some a)"
    and step: "(case ent of
        None \<Rightarrow> Some (Inl NullDereference)
      | Some e \<Rightarrow>
          (let found = (if ia e then Some e else None);
               entity' = gp e
           in if found = None then f gp ia entity'
              else Some (Inr found))) = Some y"
  show "\<forall>m. y = Inr m \<longrightarrow> (\<exists>n a. ancestor gp n ent = Some a \<and> ia a \<and> m = Some a)"
  proof (cases ent)
    case None
    with step show ?thesis by auto
  next
    case (Some e)
    show ?thesis
    proof (cases "ia e")
      case True
      with step Some have "y = Inr (Some e)" by simp
      moreover have "ancestor gp 0 ent = Some e" using Some by simp
      ultimately show ?thesis using True by blast
    next
      case False
      with step Some have "f gp ia (gp e) = Some y" by simp
      from IH[OF this] show ?thesis
      proof (intro allI impI)
        fix m assume "y = Inr m"
        with \<open>\<forall>m. y = Inr m \<longrightarrow> _\<close>
        obtain n a where "ancestor gp n (gp e) = Some a" "ia a" "m = Some a"
          by blast
        then have "ancestor gp (Suc n) ent = Some a" using Some by simp
        with \<open>ia a\<close> \<open>m = Some a\<close>
        show "\<exists>n a. ancestor gp n ent = Some a \<and> ia a \<and> m = Some a" by blast
      qed
    qed
  qed
qed

lemma parent_loop_finds:
  "ancestor GetParent n (Some e) = Some a \<Longrightarrow> is_a a \<Longrightarrow>
   \<exists>m. parent_loop GetParent is_a (Some e) = Some (Inr (Some m)) \<and> is_a m"
proof (induction n arbitrary: e)
  case 0
  then show ?case by (simp add: parent_loop.simps)
next
  case (Suc n)
  show ?case
  proof (cases "is_a e")
    case True
    then show ?thesis by (simp add: parent_loop.simps)
  next
    case False
    from Suc.prems(1) obtain e' where e': "GetParent e = Some e'"
      by (cases "GetParent e") (simp_all add: ancestor_None)
    with Suc.prems have "ancestor GetParent n (Some e') = Some a" by simp
    from Suc.IH[OF this Suc.prems(2)] False e' show ?thesis
      by (subst parent_loop.simps) simp
  qed
qed

text \<open>
  Claim C10. \<open>GetParentModel\<close> and \<open>GetParentBody\<close> return NULL for a NULL argument,
  whatever the entities are. For an argument that is not NULL they return (rather than
  dereference a NULL parent pointer or run forever) exactly when some entity of the
  parent chain, the argument included, is a Model (a Body).
\<close>

theorem parent_search_needs_ancestor:
  "GetParentModel GetParent isModel None = Some (Inr None) \<and>
   GetParentBody GetParent isBody None = Some (Inr None) \<and>
   ((\<exists>r. GetParentModel GetParent isModel (Some e) = Some (Inr r)) =
    (\<exists>n a. ancestor GetParent n (Some e) = Some a \<and> isModel a)) \<and>
   ((\<exists>r. GetParentBody GetParent isBody (Some e) = Some (Inr r)) =
    (\<exists>n a. ancestor GetParent n (Some e) = Some a \<and> isBody a))"
proof -
  have "(\<exists>r. parent_loop GetParent is_a (Some e) = Some (Inr r)) =
        (\<exists>n a. ancestor GetParent n (Some e) = Some a \<and> is_a a)" for is_a
    using parent_loop_found[of GetParent is_a "Some e"] parent_loop_finds[of GetParent _ e _ is_a]
    by blast
  then show ?thesis by (simp add: GetParentModel_def GetParentBody_def)
qed

theorem parent_search_needs_ancestor_witness:
  "(\<exists>r. GetParentModel parent0 (\<lambda>x. x = 1) (Some 3) = Some (Inr r)) \<and>
   \<not> (\<exists>r. GetParentBody parent0 (\<lambda>x. False) (Some 3) = Some (Inr r))"
proof -
  have "ancestor parent0 2 (Some 3) = Some 1"
    by (simp add: parent0_def numeral_2_eq_2)
  with parent_search_needs_ancestor[of parent0 "\<lambda>x. x = 1" "\<lambda>x. False" 3]
  show ?thesis by blast
qed

section \<open>Properties of sequences of operations\<close>

lemmas setter_defs = SetSimTime_def SetUserQuit_def SetGuiEnabled_def
  SetRenderEngineEnabled_def SetTimeout_def SetPhysicsEnabled_def

lemmas load_defs = Load_reset_def Load_xml_def Load_config_def Load_gui_def Load_render_def
  Load_world_def Close_def

subsection \<open>The start time is never assigned again\<close>

lemma exec_call_startTime: "startTime (exec_call k s) = startTime s"
  by (cases k)
     (simp_all add: sim_defs setter_defs SetSelectedEntity_def unselect_def Let_def
        split: option.splits)

lemma exec_calls_startTime: "startTime (exec_calls ks s) = startTime s"
  unfolding exec_calls_def
  by (induction ks arbitrary: s) (simp_all add: exec_call_startTime)

lemma PhysicsLoop_while_startTime:
  "startTime (snd (PhysicsLoop_while pe ins s)) = startTime s"
proof (induction ins arbitrary: s)
  case Nil
  show ?case by simp
next
  case (Cons i ins)
  obtain ks c where i: "i = (ks, c)" by (cases i)
  obtain b s' where b: "PhysicsLoop_body pe c (exec_calls ks s) = (b, s')"
    by (cases "PhysicsLoop_body pe c (exec_calls ks s)")
  from body_frame(1)[of pe c "exec_calls ks s"] b
  have "startTime s' = startTime s" by (simp add: exec_calls_startTime)
  with Cons.IH[of s'] i b show ?case
    by (cases b) (simp_all add: Let_def exec_calls_startTime)
qed

lemma MainLoop_body_startTime: "startTime (snd (MainLoop_body lastTime c s)) = startTime s"
  by (simp add: MainLoop_body_def Let_def emit_def)

lemma MainLoop_while_startTime:
  "startTime (snd (MainLoop_while ins lastTime s)) = startTime s"
proof (induction ins arbitrary: s lastTime)
  case Nil
  show ?case by simp
next
  case (Cons i ins)
  obtain ks c where i: "i = (ks, c)" by (cases i)
  obtain lt s' where b: "MainLoop_body lastTime c (exec_calls ks s) = (lt, s')"
    by (cases "MainLoop_body lastTime c (exec_calls ks s)")
  from MainLoop_body_startTime[of lastTime c "exec_calls ks s"] b
  have "startTime s' = startTime s" by (simp add: exec_calls_startTime)
  with Cons.IH[of lt s'] i b show ?case
    by (simp add: Let_def exec_calls_startTime)
qed

lemma MainLoop_startTime: "startTime (snd (MainLoop ins s)) = startTime s"
proof -
  let ?s2 = "emit [SpawnPhysicsThread] (s\<lparr>state := Some RUN\<rparr>)"
  obtain b s' where w: "MainLoop_while ins 0 ?s2 = (b, s')"
    by (cases "MainLoop_while ins 0 ?s2")
  from MainLoop_while_startTime[of ins 0 ?s2] w have "startTime s' = startTime s"
    by (simp add: emit_def)
  with w show ?thesis by (cases b) (simp_all add: MainLoop_def Let_def emit_def)
qed

lemma and_then_startTime:
  assumes "\<And>s. startTime (snd (f s)) = startTime s"
    and "\<And>s. startTime (snd (g s)) = startTime s"
  shows "startTime (snd (and_then f g s)) = startTime s"
proof -
  obtain e s' where f: "f s = (e, s')" by (cases "f s")
  with assms(1)[of s] have "startTime s' = startTime s" by simp
  with f assms(2)[of s'] show ?thesis by (cases e) (simp_all add: and_then_def)
qed

lemma Close_startTime: "startTime (Close s) = startTime s"
  by (simp add: Close_def Let_def emit_def)

lemma Load_startTime: "startTime (snd (Load env s)) = startTime s"
  unfolding Load_def
  by (intro and_then_startTime) (simp_all add: load_defs Let_def emit_def)

lemma exec_op_startTime: "startTime (exec_op opn s) = startTime s"
  by (cases opn)
     (simp_all add: exec_call_startTime Load_startTime Close_startTime MainLoop_startTime
        PhysicsLoop_while_startTime PhysicsLoop_def Init_def Fini_def Let_def emit_def)

lemma run_startTime: "startTime (run ops s) = startTime s"
  unfolding run_def
  by (induction ops arbitrary: s) (simp_all add: exec_op_startTime)

text \<open>
  Claim C7. After any sequence of operations on a Simulator constructed at wall time
  \<open>t0\<close>, and for any reading \<open>now\<close> of the wall clock, \<open>GetRealTime()\<close> is
  \<open>GetWallTime() - GetStartTime()\<close>, and the start time is still the wall time of the
  construction.
\<close>

theorem real_time_is_wall_minus_start:
  "GetRealTime (run ops (Simulator t0)) now =
     GetWallTime now - GetStartTime (run ops (Simulator t0)) \<and>
   GetStartTime (run ops (Simulator t0)) = GetWallTime t0"
  by (simp add: GetRealTime_def GetStartTime_def run_startTime Simulator_def)

subsection \<open>The enable flags are assigned by their setters only\<close>

lemma exec_call_flags: "\<not> call_sets_flag k \<Longrightarrow> enable_flags (exec_call k s) = enable_flags s"
  by (cases k)
     (simp_all add: enable_flags_def sim_defs setter_defs SetSelectedEntity_def unselect_def
        Let_def split: option.splits)

lemma exec_calls_flags:
  "\<not> list_ex call_sets_flag ks \<Longrightarrow> enable_flags (exec_calls ks s) = enable_flags s"
  unfolding exec_calls_def
  by (induction ks arbitrary: s) (simp_all add: exec_call_flags)

lemma PhysicsLoop_body_flags:
  "enable_flags (snd (PhysicsLoop_body pe c s)) = enable_flags s"
  by (simp add: PhysicsLoop_body_def Let_def sim_defs enable_flags_def)

lemma PhysicsLoop_while_flags:
  "\<not> calls_set_flag ins \<Longrightarrow> enable_flags (snd (PhysicsLoop_while pe ins s)) = enable_flags s"
proof (induction ins arbitrary: s)
  case Nil
  show ?case by simp
next
  case (Cons i ins)
  obtain ks c where i: "i = (ks, c)" by (cases i)
  from Cons.prems i have q: "\<not> list_ex call_sets_flag ks" "\<not> calls_set_flag ins"
    by (simp_all add: calls_set_flag_def)
  obtain b s' where b: "PhysicsLoop_body pe c (exec_calls ks s) = (b, s')"
    by (cases "PhysicsLoop_body pe c (exec_calls ks s)")
  from PhysicsLoop_body_flags[of pe c "exec_calls ks s"] b
  have "enable_flags s' = enable_flags s" by (simp add: exec_calls_flags[OF q(1)])
  with Cons.IH[OF q(2), of s'] i b show ?case
    by (cases b) (simp_all add: Let_def exec_calls_flags[OF q(1)])
qed

lemma MainLoop_body_flags: "enable_flags (snd (MainLoop_body lastTime c s)) = enable_flags s"
  by (simp add: MainLoop_body_def Let_def emit_def enable_flags_def)

lemma MainLoop_while_flags:
  "\<not> calls_set_flag ins \<Longrightarrow>
   enable_flags (snd (MainLoop_while ins lastTime s)) = enable_flags s"
proof (induction ins arbitrary: s lastTime)
  case Nil
  show ?case by simp
next
  case (Cons i ins)
  obtain ks c where i: "i = (ks, c)" by (cases i)
  from Cons.prems i have q: "\<not> list_ex call_sets_flag ks" "\<not> calls_set_flag ins"
    by (simp_all add: calls_set_flag_def)
  obtain lt s' where b: "MainLoop_body lastTime c (exec_calls ks s) = (lt, s')"
    by (cases "MainLoop_body lastTime c (exec_calls ks s)")
  from MainLoop_body_flags[of lastTime c "exec_calls ks s"] b
  have "enable_flags s' = enable_flags s" by (simp add: exec_calls_flags[OF q(1)])
  with Cons.IH[OF q(2), of lt s'] i b show ?case
    by (simp add: Let_def exec_calls_flags[OF q(1)])
qed

lemma MainLoop_flags:
  assumes "\<not> calls_set_flag ins"
  shows "enable_flags (snd (MainLoop ins s)) = enable_flags s"
proof -
  let ?s2 = "emit [SpawnPhysicsThread] (s\<lparr>state := Some RUN\<rparr>)"
  obtain b s' where w: "MainLoop_while ins 0 ?s2 = (b, s')"
    by (cases "MainLoop_while ins 0 ?s2")
  from MainLoop_while_flags[OF assms, of 0 ?s2] w have "enable_flags s' = enable_flags s"
    by (simp add: emit_def enable_flags_def)
  with w show ?thesis by (cases b) (simp_all add: MainLoop_def Let_def emit_def enable_flags_def)
qed

lemma and_then_flags:
  assumes "\<And>s. enable_flags (snd (f s)) = enable_flags s"
    and "\<And>s. enable_flags (snd (g s)) = enable_flags s"
  shows "enable_flags (snd (and_then f g s)) = enable_flags s"
proof -
  obtain e s' where f: "f s = (e, s')" by (cases "f s")
  with assms(1)[of s] have "enable_flags s' = enable_flags s" by simp
  with f assms(2)[of s'] show ?thesis by (cases e) (simp_all add: and_then_def)
qed

lemma Close_flags: "enable_flags (Close s) = enable_flags s"
  by (simp add: Close_def Let_def emit_def enable_flags_def)

lemma Load_flags: "enable_flags (snd (Load env s)) = enable_flags s"
  unfolding Load_def
  by (intro and_then_flags) (simp_all add: load_defs Let_def emit_def enable_flags_def)

lemma exec_op_flags: "\<not> op_sets_flag opn \<Longrightarrow> enable_flags (exec_op opn s) = enable_flags s"
proof (cases opn)
  case (Op_PhysicsLoop pe ins)
  assume "\<not> op_sets_flag opn"
  with Op_PhysicsLoop have "\<not> calls_set_flag ins" by simp
  from PhysicsLoop_while_flags[OF this, of pe "emit [InitForThread] s"] Op_PhysicsLoop
  show ?thesis by (simp add: PhysicsLoop_def emit_def enable_flags_def)
next
  case (Op_Init ok)
  then show ?thesis by (simp add: Init_def Let_def emit_def enable_flags_def)
next
  case Op_Fini
  then show ?thesis by (simp add: Fini_def Close_flags) (simp add: emit_def enable_flags_def)
qed (simp_all add: exec_call_flags Load_flags Close_flags MainLoop_flags)

lemma run_flags: "\<not> list_ex op_sets_flag ops \<Longrightarrow> enable_flags (run ops s) = enable_flags s"
  unfolding run_def
  by (induction ops arbitrary: s) (simp_all add: exec_op_flags)

text \<open>
  Claim C8, as amended. A sequence of operations that contains no call of
  \<open>SetGuiEnabled\<close>, \<open>SetRenderEngineEnabled\<close> or \<open>SetPhysicsEnabled\<close> leaves the three flags
  as they were, \<open>Load\<close>, \<open>Init\<close>, \<open>Close\<close>, \<open>Fini\<close> and the two loops included; each of the
  three setters assigns its flag whenever it is called, before or after \<open>Load\<close>.
\<close>

theorem enable_flags_change_only_by_setters:
  assumes "\<not> list_ex op_sets_flag ops"
  shows "enable_flags (run ops s) = enable_flags s \<and>
         enable_flags (SetGuiEnabled g (run ops s)) = (g, renderEngineEnabled s, physicsEnabled s) \<and>
         enable_flags (SetRenderEngineEnabled r (run ops s)) = (guiEnabled s, r, physicsEnabled s) \<and>
         enable_flags (SetPhysicsEnabled p (run ops s)) = (guiEnabled s, renderEngineEnabled s, p)"
  using run_flags[OF assms, of s]
  by (simp add: enable_flags_def setter_defs)

theorem enable_flags_change_only_by_setters_witness:
  "\<not> list_ex op_sets_flag
      [Op_Load env_ok, Op_Init True, Op_call (Call_SetPaused True),
       Op_PhysicsLoop pe0 (quiet [c0]), Op_Fini] \<and>
   enable_flags (run [Op_Load env_ok, Op_Init True, Op_call (Call_SetPaused True),
       Op_PhysicsLoop pe0 (quiet [c0]), Op_Fini] (Simulator 0)) = (True, True, True) \<and>
   enable_flags (SetGuiEnabled False (run [Op_Load env_ok, Op_Init True,
       Op_call (Call_SetPaused True), Op_PhysicsLoop pe0 (quiet [c0]), Op_Fini] (Simulator 0))) =
     (False, True, True)"
proof -
  have h: "\<not> list_ex op_sets_flag
      [Op_Load env_ok, Op_Init True, Op_call (Call_SetPaused True),
       Op_PhysicsLoop pe0 (quiet [c0]), Op_Fini]"
    by (simp add: calls_set_flag_def quiet_def)
  have e: "enable_flags (Simulator 0) = (True, True, True)"
    "renderEngineEnabled (Simulator 0)" "physicsEnabled (Simulator 0)"
    by (simp_all add: enable_flags_def Simulator_def)
  from enable_flags_change_only_by_setters[OF h, of "Simulator 0" False] e
  show ?thesis using h by simp
qed

text \<open>
  The flags are not immutable after \<open>Load\<close>: on the loaded Simulator, with the GUI
  enabled, \<open>SetGuiEnabled(false)\<close> disables it.
\<close>

theorem enable_flag_set_after_Load_counterexample:
  "loaded sL \<and> guiEnabled sL \<and> \<not> guiEnabled (run [Op_call (Call_SetGuiEnabled False)] sL)"
  by (simp add: sL_def run_def env_ok_def Simulator_def Load_def and_then_def load_defs
      Let_def emit_def GetWallTime_def SetGuiEnabled_def)

section \<open>Properties of the main loop\<close>

lemma exec_call_joins: "joins (exec_call k s) = joins s" "userQuit s \<Longrightarrow> userQuit (exec_call k s)"
  by (cases k; simp add: joins_def sim_defs setter_defs SetSelectedEntity_def unselect_def Let_def
        split: option.splits)+

lemma exec_calls_joins: "joins (exec_calls ks s) = joins s"
  unfolding exec_calls_def
  by (induction ks arbitrary: s) (simp_all add: exec_call_joins)

lemma MainLoop_body_frame:
  "joins (snd (MainLoop_body lastTime c s)) = joins s"
  "userQuit (snd (MainLoop_body lastTime c s)) = userQuit s"
  "state (snd (MainLoop_body lastTime c s)) = state s"
  by (simp_all add: MainLoop_body_def Let_def emit_def joins_def)

lemma exec_call_state: "state (exec_call k s) = state s"
  by (cases k)
     (simp_all add: sim_defs setter_defs SetSelectedEntity_def unselect_def Let_def
        split: option.splits)

lemma exec_calls_state: "state (exec_calls ks s) = state s"
  unfolding exec_calls_def
  by (induction ks arbitrary: s) (simp_all add: exec_call_state)

lemma MainLoop_while_frame:
  "joins (snd (MainLoop_while ins lastTime s)) = joins s \<and>
   state (snd (MainLoop_while ins lastTime s)) = state s \<and>
   userQuit (snd (MainLoop_while ins lastTime s)) = fst (MainLoop_while ins lastTime s)"
proof (induction ins arbitrary: s lastTime)
  case Nil
  show ?case by simp
next
  case (Cons i ins)
  obtain ks c where i: "i = (ks, c)" by (cases i)
  let ?s0 = "exec_calls ks s"
  obtain lt s' where b: "MainLoop_body lastTime c ?s0 = (lt, s')"
    by (cases "MainLoop_body lastTime c ?s0")
  from MainLoop_body_frame[of lastTime c ?s0] b
  have s': "joins s' = joins s" "state s' = state s"
    by (simp_all add: exec_calls_joins exec_calls_state)
  from Cons.IH[of lt s'] s' i b show ?case
    by (simp add: Let_def exec_calls_joins exec_calls_state)
qed

text \<open>
  Claim C5, as amended. An iteration of the main loop reads \<open>currTime\<close> from the wall
  clock. When \<open>currTime - lastTime\<close> is greater than 1/80 s it first records \<open>lastTime\<close>
  from the wall clock and then does one frame: the GUI update if there is a GUI, the
  camera update and the graphics update if the render engine is enabled, the processing
  of the entities to load and to delete, and a sleep for the rest of the period when the
  frame took less than 1/80 s. Otherwise it sleeps for 1/80 s minus
  \<open>currTime - lastTime\<close>. \<open>MainLoop\<close> sets the state to \<open>RUN\<close>; it has left its loop exactly
  when \<open>userQuit\<close> has been seen set, and then the last thing it did was to join the
  physics thread; while the loop runs the thread is not joined.
\<close>

theorem render_loop_algorithm:
  "MainLoop_body lastTime c s =
     (if at355 c - lastTime > 1 / 80 then
        (at358 c,
         emit ((if gui s then [GuiUpdate] else []) @
               (if renderEngineEnabled s then [UpdateCameras, GraphicsUpdate] else []) @
               [ProcessEntitiesToLoad, ProcessEntitiesToDelete] @
               (if at369 c - at358 c < 1 / 80
                then [Nanosleep (1 / 80 - (at369 c - at358 c))] else [])) s)
      else (lastTime, emit [Nanosleep (1 / 80 - (at355 c - lastTime))] s)) \<and>
   fst (MainLoop ins s) = userQuit (snd (MainLoop ins s)) \<and>
   state (snd (MainLoop ins s)) = Some RUN \<and>
   (if fst (MainLoop ins s)
    then last (trace (snd (MainLoop ins s))) = JoinPhysicsThread \<and>
         joins (snd (MainLoop ins s)) = joins s + 1
    else joins (snd (MainLoop ins s)) = joins s)"
proof -
  let ?s2 = "emit [SpawnPhysicsThread] (s\<lparr>state := Some RUN\<rparr>)"
  obtain b s' where w: "MainLoop_while ins 0 ?s2 = (b, s')"
    by (cases "MainLoop_while ins 0 ?s2")
  from MainLoop_while_frame[of ins 0 ?s2] w
  have s': "joins s' = joins s" "state s' = Some RUN" "userQuit s' = b"
    by (simp_all add: emit_def joins_def)
  have loop: "fst (MainLoop ins s) = userQuit (snd (MainLoop ins s)) \<and>
   state (snd (MainLoop ins s)) = Some RUN \<and>
   (if fst (MainLoop ins s)
    then last (trace (snd (MainLoop ins s))) = JoinPhysicsThread \<and>
         joins (snd (MainLoop ins s)) = joins s + 1
    else joins (snd (MainLoop ins s)) = joins s)"
    using w s' by (cases b) (simp_all add: MainLoop_def Let_def emit_def joins_def)
  have body: "MainLoop_body lastTime c s =
     (if at355 c - lastTime > 1 / 80 then
        (at358 c,
         emit ((if gui s then [GuiUpdate] else []) @
               (if renderEngineEnabled s then [UpdateCameras, GraphicsUpdate] else []) @
               [ProcessEntitiesToLoad, ProcessEntitiesToDelete] @
               (if at369 c - at358 c < 1 / 80
                then [Nanosleep (1 / 80 - (at369 c - at358 c))] else [])) s)
      else (lastTime, emit [Nanosleep (1 / 80 - (at355 c - lastTime))] s))"
    by (simp add: MainLoop_body_def Let_def emit_def freq_def GetWallTime_def)
  from body loop show ?thesis by blast
qed

lemma sL_eval:
  "sL = (Simulator 0)\<lparr>xmlFile := True, gui := True, renderEngine := True, gazeboConfig := True,
      loaded := True, state := Some LOAD,
      trace := [XmlLoad, MessageLoad, ConfigLoad, OgreLoad, GuiCreate, GuiLoad,
                GuiCreateCameras, OgreInit, GuiInit, WorldLoad]\<rparr>"
  by (simp add: sL_def run_def env_ok_def Simulator_def Load_def and_then_def load_defs
      Let_def emit_def GetWallTime_def)

theorem render_loop_algorithm_witness:
  "MainLoop [([], fc_frame), ([Call_SetUserQuit], fc_eq)] sL =
     (True, sL\<lparr>userQuit := True, state := Some RUN,
               trace := trace sL @
                 [SpawnPhysicsThread, GuiUpdate, UpdateCameras, GraphicsUpdate,
                  ProcessEntitiesToLoad, ProcessEntitiesToDelete,
                  Nanosleep (1 / 80 - 1 / 1000), JoinPhysicsThread]\<rparr>)"
proof -
  let ?s2 = "emit [SpawnPhysicsThread] (sL\<lparr>state := Some RUN\<rparr>)"
  have g: "gui ?s2" "renderEngineEnabled ?s2"
    by (simp_all add: sL_eval Simulator_def emit_def)
  from render_loop_algorithm[where lastTime = 0 and c = fc_frame and s = ?s2] g
  have "MainLoop_body 0 fc_frame ?s2 =
          (1, emit [GuiUpdate, UpdateCameras, GraphicsUpdate, ProcessEntitiesToLoad,
                    ProcessEntitiesToDelete, Nanosleep (1 / 80 - 1 / 1000)] ?s2)"
    by (simp add: fc_frame_def)
  moreover have "\<not> userQuit ?s2" by (simp add: sL_eval Simulator_def emit_def)
  ultimately show ?thesis
    by (simp add: MainLoop_def exec_calls_def SetUserQuit_def emit_def Let_def)
qed

text \<open>
  The body differs from the wording of the specification. When exactly 1/80 s has
  passed, the code sleeps for zero seconds where the specification does a frame. When a
  frame is done, the code has recorded \<open>lastTime\<close> before the frame, not after it, and
  sleeps for the rest of the period after the frame.
\<close>

theorem render_loop_boundary_counterexample:
  "MainLoop_body 0 fc_eq sL = (0, emit [Nanosleep 0] sL) \<and>
   spec_MainLoop_body 0 (at355 fc_eq) (at369 fc_eq) sL =
     (1 / 80, emit [GuiUpdate, UpdateCameras, GraphicsUpdate,
                    ProcessEntitiesToLoad, ProcessEntitiesToDelete] sL) \<and>
   fst (MainLoop_body 0 fc_frame sL) = at358 fc_frame \<and>
   at358 fc_frame < at369 fc_frame \<and>
   fst (spec_MainLoop_body 0 (at355 fc_frame) (at369 fc_frame) sL) = at369 fc_frame \<and>
   sleeps (trace (snd (MainLoop_body 0 fc_frame sL))) = [1 / 80 - 1 / 1000] \<and>
   sleeps (trace (snd (spec_MainLoop_body 0 (at355 fc_frame) (at369 fc_frame) sL))) = []"
  by (simp add: MainLoop_body_def spec_MainLoop_body_def fc_eq_def fc_frame_def freq_def
      GetWallTime_def Let_def emit_def sL_eval Simulator_def)

end
